theory Spec2Isabelle
  imports Main "HOL-Library.Word" "HOL-Library.Sublist"
begin

unbundle bit_operations_syntax

section \<open>fsnotify.go: events and the operation bitmask\<close>

text \<open>
  \<^verbatim>\<open>type Op uint32\<close>: a set of file operations, one bit each. Go's \<^verbatim>\<open>&\<close> and \<^verbatim>\<open>|\<close> on
  \<^verbatim>\<open>uint32\<close> are \<open>AND\<close> and \<open>OR\<close> on \<open>32 word\<close>.
\<close>

type_synonym Op = "32 word"

text \<open>\<^verbatim>\<open>type Event struct { Name string; Op Op }\<close>\<close>

record Event =
  Name :: string
  Op :: Op

text \<open>
  The first five constants of the \<^verbatim>\<open>const\<close> block are typed \<^verbatim>\<open>Op\<close> and numbered by
  \<^verbatim>\<open>1 << iota\<close>, with \<^verbatim>\<open>iota\<close> running 0, 1, 2, 3, 4.
\<close>

definition Create :: Op where "Create = push_bit 0 1"
definition Write :: Op where "Write = push_bit 1 1"
definition Remove :: Op where "Remove = push_bit 2 1"
definition Rename :: Op where "Rename = push_bit 3 1"
definition Chmod :: Op where "Chmod = push_bit 4 1"

text \<open>
  The rest of the same block: the constants of inotify(7), and the \<^verbatim>\<open>IN_CLASS*\<close> ones of
  netinet/in.h, written in the source as hexadecimal literals. They are untyped in Go and
  become \<^verbatim>\<open>Op\<close> where \<^verbatim>\<open>Has\<close> receives them.
\<close>

definition IN_ACCESS :: Op where "IN_ACCESS = 0x1"
definition IN_ALL_EVENTS :: Op where "IN_ALL_EVENTS = 0xfff"
definition IN_ATTRIB :: Op where "IN_ATTRIB = 0x4"
definition IN_CLASSA_HOST :: Op where "IN_CLASSA_HOST = 0xffffff"
definition IN_CLASSA_MAX :: Op where "IN_CLASSA_MAX = 0x80"
definition IN_CLASSA_NET :: Op where "IN_CLASSA_NET = 0xff000000"
definition IN_CLASSA_NSHIFT :: Op where "IN_CLASSA_NSHIFT = 0x18"
definition IN_CLASSB_HOST :: Op where "IN_CLASSB_HOST = 0xffff"
definition IN_CLASSB_MAX :: Op where "IN_CLASSB_MAX = 0x10000"
definition IN_CLASSB_NET :: Op where "IN_CLASSB_NET = 0xffff0000"
definition IN_CLASSB_NSHIFT :: Op where "IN_CLASSB_NSHIFT = 0x10"
definition IN_CLASSC_HOST :: Op where "IN_CLASSC_HOST = 0xff"
definition IN_CLASSC_NET :: Op where "IN_CLASSC_NET = 0xffffff00"
definition IN_CLASSC_NSHIFT :: Op where "IN_CLASSC_NSHIFT = 0x8"
definition IN_CLOSE :: Op where "IN_CLOSE = 0x18"
definition IN_CLOSE_NOWRITE :: Op where "IN_CLOSE_NOWRITE = 0x10"
definition IN_CLOSE_WRITE :: Op where "IN_CLOSE_WRITE = 0x8"
definition IN_CREATE :: Op where "IN_CREATE = 0x100"
definition IN_DELETE :: Op where "IN_DELETE = 0x200"
definition IN_DELETE_SELF :: Op where "IN_DELETE_SELF = 0x400"
definition IN_DONT_FOLLOW :: Op where "IN_DONT_FOLLOW = 0x2000000"
definition IN_EXCL_UNLINK :: Op where "IN_EXCL_UNLINK = 0x4000000"
definition IN_IGNORED :: Op where "IN_IGNORED = 0x8000"
definition IN_ISDIR :: Op where "IN_ISDIR = 0x40000000"
definition IN_LOOPBACKNET :: Op where "IN_LOOPBACKNET = 0x7f"
definition IN_MASK_ADD :: Op where "IN_MASK_ADD = 0x20000000"
definition IN_MASK_CREATE :: Op where "IN_MASK_CREATE = 0x10000000"
definition IN_MODIFY :: Op where "IN_MODIFY = 0x2"
definition IN_MOVE :: Op where "IN_MOVE = 0xc0"
definition IN_MOVED_FROM :: Op where "IN_MOVED_FROM = 0x40"
definition IN_MOVED_TO :: Op where "IN_MOVED_TO = 0x80"
definition IN_MOVE_SELF :: Op where "IN_MOVE_SELF = 0x800"
definition IN_ONESHOT :: Op where "IN_ONESHOT = 0x80000000"
definition IN_ONLYDIR :: Op where "IN_ONLYDIR = 0x1000000"
definition IN_OPEN :: Op where "IN_OPEN = 0x20"
definition IN_Q_OVERFLOW :: Op where "IN_Q_OVERFLOW = 0x4000"

text \<open>\<^verbatim>\<open>func (o Op) Has(h Op) bool { return o&h == h }\<close>\<close>

definition Has :: "Op \<Rightarrow> Op \<Rightarrow> bool" where
  "Has v h = (v AND h = h)"

text \<open>\<^verbatim>\<open>func (e Event) Has(op Op) bool { return e.Op.Has(op) }\<close>\<close>

definition Event_Has :: "Event \<Rightarrow> Op \<Rightarrow> bool" where
  "Event_Has e h = Has (Op e) h"

text \<open>
  \<^verbatim>\<open>strings.Builder\<close>: \<^verbatim>\<open>b.WriteString(s)\<close> appends \<open>s\<close> to the bytes written so far.
\<close>

definition WriteString :: "string \<Rightarrow> string \<Rightarrow> string" where
  "WriteString b str = b @ str"

text \<open>
  \<^verbatim>\<open>func (o Op) String() string\<close>: fifteen tests in the order of the source, each writing
  one name behind a \<open>|\<close>; the five tests of the canonical operations are commented out in
  the source and so are absent here. \<^verbatim>\<open>b.String()[1:]\<close> drops the leading \<open>|\<close>.
\<close>

definition Op_String :: "Op \<Rightarrow> string" where
  "Op_String v =
     (let b = [];
          b = (if Has v IN_ACCESS then WriteString b ''|IN_ACCESS'' else b);
          b = (if Has v IN_ATTRIB then WriteString b ''|IN_ATTRIB'' else b);
          b = (if Has v IN_CLOSE then WriteString b ''|IN_CLOSE'' else b);
          b = (if Has v IN_CLOSE_NOWRITE then WriteString b ''|IN_CLOSE_NOWRITE'' else b);
          b = (if Has v IN_CLOSE_WRITE then WriteString b ''|IN_CLOSE_WRITE'' else b);
          b = (if Has v IN_CREATE then WriteString b ''|IN_CREATE'' else b);
          b = (if Has v IN_DELETE then WriteString b ''|IN_DELETE'' else b);
          b = (if Has v IN_DELETE_SELF then WriteString b ''|IN_DELETE_SELF'' else b);
          b = (if Has v IN_MOVED_TO then WriteString b ''|IN_MOVED_TO'' else b);
          b = (if Has v IN_MODIFY then WriteString b ''|IN_MODIFY'' else b);
          b = (if Has v IN_MOVE_SELF then WriteString b ''|IN_MOVE_SELF'' else b);
          b = (if Has v IN_MOVED_FROM then WriteString b ''|IN_MOVED_FROM'' else b);
          b = (if Has v IN_ISDIR then WriteString b ''|IN_ISDIR'' else b);
          b = (if Has v IN_OPEN then WriteString b ''|IN_OPEN'' else b);
          b = (if Has v IN_DONT_FOLLOW then WriteString b ''|IN_DONT_FOLLOW'' else b)
      in if length b = 0 then ''[no events]'' else drop 1 b)"

subsection \<open>The sentinel errors\<close>

text \<open>
  \<^verbatim>\<open>errors.New(text)\<close> returns \<^verbatim>\<open>&errorString{text}\<close>: a pointer to a newly allocated
  object, and two error values of this kind are equal in Go exactly when the pointers are.
  The heap of such objects is the list of their texts, an error value is the index of its
  object, and allocation appends.
\<close>

type_synonym error = nat
type_synonym error_heap = "string list"

definition errors_New :: "string \<Rightarrow> error_heap \<Rightarrow> error \<times> error_heap" where
  "errors_New text h = (length h, h @ [text])"

text \<open>The method \<^verbatim>\<open>Error()\<close> of an error value of the heap.\<close>

definition Error :: "error_heap \<Rightarrow> error \<Rightarrow> string" where
  "Error h e = h ! e"

text \<open>
  The \<^verbatim>\<open>var ( ... )\<close> block of the three errors, run at package initialisation on the heap
  \<open>h0\<close> that the program has by then.
\<close>

definition init_errors :: "error_heap \<Rightarrow> (error \<times> error \<times> error) \<times> error_heap" where
  "init_errors h0 =
     (let (e1, h1) = errors_New ''fsnotify: can't remove non-existent watcher'' h0;
          (e2, h2) = errors_New ''fsnotify: queue or buffer overflow'' h1;
          (e3, h3) = errors_New ''fsnotify: watcher already closed'' h2
      in ((e1, e2, e3), h3))"

definition ErrNonExistentWatch :: "error_heap \<Rightarrow> error" where
  "ErrNonExistentWatch h0 = fst (fst (init_errors h0))"

definition ErrEventOverflow :: "error_heap \<Rightarrow> error" where
  "ErrEventOverflow h0 = fst (snd (fst (init_errors h0)))"

definition ErrClosed :: "error_heap \<Rightarrow> error" where
  "ErrClosed h0 = snd (snd (fst (init_errors h0)))"

subsection \<open>Options\<close>

text \<open>
  \<^verbatim>\<open>withOpts struct { bufsize int }\<close> and \<^verbatim>\<open>addOpt func(opt *withOpts)\<close>: an option
  updates the struct it is given. The code only stores and copies \<^verbatim>\<open>bufsize\<close>, so Go's
  \<^verbatim>\<open>int\<close> is \<open>int\<close> here.
\<close>

record withOpts =
  bufsize :: int

type_synonym addOpt = "withOpts \<Rightarrow> withOpts"

definition defaultOpts :: withOpts where
  "defaultOpts = \<lparr>bufsize = 65536\<rparr>"

text \<open>The loop \<^verbatim>\<open>for _, o := range opts { o(&with) }\<close>.\<close>

fun getOptions_range :: "addOpt list \<Rightarrow> withOpts \<Rightarrow> withOpts" where
  "getOptions_range [] w = w"
| "getOptions_range (f # opts) w = getOptions_range opts (f w)"

definition getOptions :: "addOpt list \<Rightarrow> withOpts" where
  "getOptions opts = getOptions_range opts defaultOpts"

definition WithBufferSize :: "int \<Rightarrow> addOpt" where
  "WithBufferSize bytes = (\<lambda>opt. opt\<lparr>bufsize := bytes\<rparr>)"

section \<open>The functions of path/filepath that the package calls\<close>

text \<open>
  \<^verbatim>\<open>recursivePath\<close> and \<^verbatim>\<open>GetDirNames\<close> call \<^verbatim>\<open>filepath.Base\<close>, \<^verbatim>\<open>filepath.Dir\<close> and
  \<^verbatim>\<open>filepath.Walk\<close> of Go's standard library. They are modelled here as the library
  defines them on Unix, the platform of inotify: the separator is \<open>/\<close>, there is no volume
  name, and \<^verbatim>\<open>FromSlash\<close> is the identity. Strings are byte lists, indexed as in Go.
\<close>

definition Separator :: char where
  "Separator = CHR ''/''"

definition IsPathSeparator :: "char \<Rightarrow> bool" where
  "IsPathSeparator c = (c = Separator)"

text \<open>
  \<^verbatim>\<open>filepath.Clean\<close>. Its output buffer is the list \<open>out\<close> (the library's \<^verbatim>\<open>out.w\<close> is
  \<open>length out\<close>). Backtracking over a \<open>..\<close> element:
  \<^verbatim>\<open>out.w--; for out.w > dotdot && !os.IsPathSeparator(out.index(out.w)) { out.w-- }\<close>,
  here from the index after the first decrement.
\<close>

function backtrack :: "string \<Rightarrow> nat \<Rightarrow> nat \<Rightarrow> nat" where
  "backtrack out dotdot w =
     (if w > dotdot \<and> \<not> IsPathSeparator (out ! w) then backtrack out dotdot (w - 1) else w)"
  by pat_completeness auto
termination
  by (relation "measure (\<lambda>(out, dotdot, w). w)") auto

declare backtrack.simps [simp del]

text \<open>
  Copying one path element:
  \<^verbatim>\<open>for ; r < n && !os.IsPathSeparator(path[r]); r++ { out.append(path[r]) }\<close>.
\<close>

function copy_element :: "string \<Rightarrow> nat \<Rightarrow> string \<Rightarrow> nat \<times> string" where
  "copy_element path r out =
     (if r < length path \<and> \<not> IsPathSeparator (path ! r)
      then copy_element path (r + 1) (out @ [path ! r])
      else (r, out))"
  by pat_completeness auto
termination
  by (relation "measure (\<lambda>(path, r, out). length path - r)") auto

declare copy_element.simps [simp del]

lemma copy_element_mono: "r \<le> fst (copy_element path r out)"
proof (induction path r out rule: copy_element.induct)
  case (1 path r out)
  show ?case
  proof (cases "r < length path \<and> \<not> IsPathSeparator (path ! r)")
    case True
    then have "r + 1 \<le> fst (copy_element path (r + 1) (out @ [path ! r]))"
      using "1.IH" by simp
    then show ?thesis
      using True by (subst copy_element.simps) simp
  next
    case False
    then show ?thesis
      by (subst copy_element.simps) auto
  qed
qed

lemma copy_element_advances:
  assumes "r < length path" and "\<not> IsPathSeparator (path ! r)"
  shows "r < fst (copy_element path r out)"
proof -
  have "r + 1 \<le> fst (copy_element path (r + 1) (out @ [path ! r]))"
    by (rule copy_element_mono)
  then show ?thesis
    using assms by (subst copy_element.simps) simp
qed

lemma copy_element_bound:
  "r \<le> length path \<Longrightarrow> fst (copy_element path r out) \<le> length path"
proof (induction path r out rule: copy_element.induct)
  case (1 path r out)
  show ?case
  proof (cases "r < length path \<and> \<not> IsPathSeparator (path ! r)")
    case True
    then have "fst (copy_element path (r + 1) (out @ [path ! r])) \<le> length path"
      using "1.IH" by simp
    then show ?thesis
      using True by (subst copy_element.simps) simp
  next
    case False
    then show ?thesis
      using "1.prems" by (subst copy_element.simps) auto
  qed
qed

text \<open>
  The main loop of \<^verbatim>\<open>Clean\<close>, \<^verbatim>\<open>for r < n { switch { ... } }\<close>: an empty element, a
  \<open>.\<close> element, a \<open>..\<close> element (backtrack, or keep it when the path is not rooted), or a
  real element, which is copied behind a separator.
\<close>

function Clean_loop :: "string \<Rightarrow> bool \<Rightarrow> nat \<Rightarrow> string \<Rightarrow> nat \<Rightarrow> string" where
  "Clean_loop path rooted r out dotdot =
     (let n = length path in
      if r < n then
        if IsPathSeparator (path ! r) then
          Clean_loop path rooted (r + 1) out dotdot
        else if path ! r = CHR ''.'' \<and> (r + 1 = n \<or> IsPathSeparator (path ! (r + 1))) then
          Clean_loop path rooted (r + 1) out dotdot
        else if path ! r = CHR ''.'' \<and> path ! (r + 1) = CHR ''.'' \<and>
                (r + 2 = n \<or> IsPathSeparator (path ! (r + 2))) then
          (if length out > dotdot then
             Clean_loop path rooted (r + 2)
               (take (backtrack out dotdot (length out - 1)) out) dotdot
           else if \<not> rooted then
             (let out1 = (if length out > 0 then out @ [Separator] else out);
                  out2 = out1 @ ''..''
              in Clean_loop path rooted (r + 2) out2 (length out2))
           else Clean_loop path rooted (r + 2) out dotdot)
        else
          (let out1 = (if rooted \<and> length out \<noteq> 1 \<or> \<not> rooted \<and> length out \<noteq> 0
                       then out @ [Separator] else out);
               (r', out2) = copy_element path r out1
           in Clean_loop path rooted r' out2 dotdot)
      else out)"
  by pat_completeness auto
termination
proof (relation "measure (\<lambda>(path, rooted, r, out, dotdot). length path - r)", goal_cases)
  case 1
  show ?case by (rule wf_measure)
next
  case (2 path rooted r out dotdot n)
  from 2(1,2) show ?case by simp
next
  case (3 path rooted r out dotdot n)
  from 3(1,2) show ?case by simp
next
  case (4 path rooted r out dotdot n)
  from 4(1,2) show ?case by simp
next
  case (5 path rooted r out dotdot n out1 out2)
  from 5(1,2) show ?case by simp
next
  case (6 path rooted r out dotdot n)
  from 6(1,2) show ?case by simp
next
  case (7 path rooted r out dotdot n out1 res r' out2)
  from 7(7,8) have res: "copy_element path r out1 = (r', out2)"
    by simp
  have "r < fst (copy_element path r out1)"
    using 7(1,2,3) by (simp add: copy_element_advances)
  moreover have "fst (copy_element path r out1) \<le> length path"
    using 7(1,2) by (simp add: copy_element_bound)
  ultimately show ?case
    by (simp add: res)
qed

declare Clean_loop.simps [simp del]

text \<open>
  \<^verbatim>\<open>Clean\<close> itself: the empty path is \<open>.\<close>; a rooted path starts the output with the
  separator, and \<open>..\<close> cannot climb above it (\<^verbatim>\<open>r, dotdot = 1, 1\<close>); an empty result is
  \<open>.\<close>.
\<close>

definition Clean :: "string \<Rightarrow> string" where
  "Clean path =
     (if path = [] then ''.''
      else
        let rooted = IsPathSeparator (path ! 0);
            out = (if rooted then [Separator] else []);
            r = (if rooted then 1 else 0);
            out = Clean_loop path rooted r out r
        in if length out = 0 then ''.'' else out)"

text \<open>
  The first loop of \<^verbatim>\<open>Base\<close>:
  \<^verbatim>\<open>for len(path) > 0 && os.IsPathSeparator(path[len(path)-1]) { path = path[0 : len(path)-1] }\<close>.
\<close>

function strip_trailing :: "string \<Rightarrow> string" where
  "strip_trailing path =
     (if length path > 0 \<and> IsPathSeparator (path ! (length path - 1))
      then strip_trailing (take (length path - 1) path)
      else path)"
  by pat_completeness auto
termination
  by (relation "measure length") auto

declare strip_trailing.simps [simp del]

text \<open>
  The loop that \<^verbatim>\<open>Base\<close> and \<^verbatim>\<open>Dir\<close> share:
  \<^verbatim>\<open>for i >= 0 && !os.IsPathSeparator(path[i]) { i-- }\<close>; it ends at the index of the last
  separator, or at \<open>-1\<close>.
\<close>

function last_separator :: "string \<Rightarrow> int \<Rightarrow> int" where
  "last_separator path i =
     (if i \<ge> 0 \<and> \<not> IsPathSeparator (path ! nat i) then last_separator path (i - 1) else i)"
  by pat_completeness auto
termination
  by (relation "measure (\<lambda>(path, i). nat (i + 1))") auto

declare last_separator.simps [simp del]

text \<open>
  \<^verbatim>\<open>filepath.Base\<close>: the last element of the path, trailing separators removed first;
  \<open>.\<close> for the empty path and the separator for a path of separators only.
\<close>

definition Base :: "string \<Rightarrow> string" where
  "Base path =
     (if path = [] then ''.''
      else
        let path = strip_trailing path;
            i = last_separator path (int (length path) - 1);
            path = (if i \<ge> 0 then drop (nat (i + 1)) path else path)
        in if path = [] then [Separator] else path)"

text \<open>
  \<^verbatim>\<open>filepath.Dir\<close>: everything up to and including the last separator, cleaned. Trailing
  separators are not removed first.
\<close>

definition Dir :: "string \<Rightarrow> string" where
  "Dir path =
     (let i = last_separator path (int (length path) - 1);
          dir = Clean (take (nat (i + 1)) path)
      in dir)"

text \<open>\<^verbatim>\<open>strings.Join(elems, sep)\<close> and \<^verbatim>\<open>filepath.Join(elem...)\<close>, which cleans its result.\<close>

fun strings_Join :: "string list \<Rightarrow> string \<Rightarrow> string" where
  "strings_Join [] sep = []"
| "strings_Join [e] sep = e"
| "strings_Join (e # es) sep = e @ sep @ strings_Join es sep"

fun Join :: "string list \<Rightarrow> string" where
  "Join [] = []"
| "Join (e # es) = (if e \<noteq> [] then Clean (strings_Join (e # es) [Separator]) else Join es)"

section \<open>fsnotify.go: recursivePath\<close>

text \<open>
  \<^verbatim>\<open>
  func recursivePath(path string) (string, bool) {
      if filepath.Base(path) == "..." {
          return filepath.Dir(path), true
      }
      return path, false
  }
  \<close>
\<close>

definition recursivePath :: "string \<Rightarrow> string \<times> bool" where
  "recursivePath path = (if Base path = ''...'' then (Dir path, True) else (path, False))"

section \<open>utils.go: GetDirNames\<close>

text \<open>
  What a walk sees of the file system. A node is what \<^verbatim>\<open>os.Lstat\<close> reports of a path
  that exists: a non-directory, a directory whose listing can be read, or a directory
  whose listing cannot. A listing is the list of names that \<^verbatim>\<open>readDirNames\<close> returns (the
  library sorts it), each with the result of its \<^verbatim>\<open>lstat\<close>: \<open>None\<close> when that call fails.
  \<^verbatim>\<open>Lstat\<close> does not follow symbolic links, so what is walked is a finite tree.
\<close>

datatype node = File | Directory "(string \<times> node option) list" | DirUnreadable

text \<open>The file system itself gives the result of \<^verbatim>\<open>os.Lstat\<close> for every root.\<close>

type_synonym filesystem = "string \<Rightarrow> node option"

text \<open>\<^verbatim>\<open>info.IsDir()\<close>\<close>

fun IsDir :: "node \<Rightarrow> bool" where
  "IsDir File = False"
| "IsDir (Directory es) = True"
| "IsDir DirUnreadable = True"

text \<open>
  The errors of a walk: the sentinel \<^verbatim>\<open>filepath.SkipDir\<close>, and the errors of \<^verbatim>\<open>Lstat\<close>
  and of reading a directory, with the path they are about.
\<close>

datatype fserror = SkipDir | LstatError string | ReadDirError string

text \<open>
  \<^verbatim>\<open>log.Fatal\<close> prints and calls \<^verbatim>\<open>os.Exit(1)\<close>: the function that calls it does not
  return. A computation either ends the process or returns a value.
\<close>

datatype 'a run = Exited | Returned 'a

text \<open>
  \<^verbatim>\<open>type WalkFunc func(path string, info fs.FileInfo, err error) error\<close>, with the state
  that the closure updates passed in and out. Of \<^verbatim>\<open>info\<close> only \<^verbatim>\<open>IsDir()\<close> is kept; it
  is \<open>None\<close> where the library passes \<^verbatim>\<open>nil\<close>.
\<close>

type_synonym 's WalkFunc =
  "'s \<Rightarrow> string \<Rightarrow> bool option \<Rightarrow> fserror option \<Rightarrow> (fserror option \<times> 's) run"

text \<open>
  The library's \<^verbatim>\<open>walk(path, info, walkFn)\<close>, and its loop
  \<^verbatim>\<open>for _, name := range names\<close> as \<open>walk_names\<close>:
  \<^verbatim>\<open>
  if !info.IsDir() { return walkFn(path, info, nil) }
  names, err := readDirNames(path)
  err1 := walkFn(path, info, err)
  if err != nil || err1 != nil { return err1 }
  for _, name := range names {
      filename := Join(path, name)
      fileInfo, err := lstat(filename)
      if err != nil {
          if err := walkFn(filename, fileInfo, err); err != nil && err != SkipDir { return err }
      } else {
          err = walk(filename, fileInfo, walkFn)
          if err != nil {
              if !fileInfo.IsDir() || err != SkipDir { return err }
          }
      }
  }
  return nil
  \<close>
\<close>

function walk :: "string \<Rightarrow> node \<Rightarrow> 's WalkFunc \<Rightarrow> 's \<Rightarrow> (fserror option \<times> 's) run"
  and walk_names :: "string \<Rightarrow> (string \<times> node option) list \<Rightarrow> 's WalkFunc \<Rightarrow> 's \<Rightarrow>
                     (fserror option \<times> 's) run" where
  "walk path File walkFn st = walkFn st path (Some False) None"
| "walk path DirUnreadable walkFn st = walkFn st path (Some True) (Some (ReadDirError path))"
| "walk path (Directory es) walkFn st =
     (case walkFn st path (Some True) None of
        Exited \<Rightarrow> Exited
      | Returned (err1, st1) \<Rightarrow>
          if err1 \<noteq> None then Returned (err1, st1) else walk_names path es walkFn st1)"
| "walk_names path [] walkFn st = Returned (None, st)"
| "walk_names path ((name, None) # rest) walkFn st =
     (let filename = Join [path, name] in
      case walkFn st filename None (Some (LstatError filename)) of
        Exited \<Rightarrow> Exited
      | Returned (err, st1) \<Rightarrow>
          if err \<noteq> None \<and> err \<noteq> Some SkipDir then Returned (err, st1)
          else walk_names path rest walkFn st1)"
| "walk_names path ((name, Some fileInfo) # rest) walkFn st =
     (let filename = Join [path, name] in
      case walk filename fileInfo walkFn st of
        Exited \<Rightarrow> Exited
      | Returned (err, st1) \<Rightarrow>
          if err \<noteq> None \<and> (\<not> IsDir fileInfo \<or> err \<noteq> Some SkipDir) then Returned (err, st1)
          else walk_names path rest walkFn st1)"
  by pat_completeness auto
termination
  by (relation "measure (\<lambda>x. case x of
          Inl (path, n, walkFn, st) \<Rightarrow> 2 * size n
        | Inr (path, es, walkFn, st) \<Rightarrow>
            2 * size_list (size_prod (\<lambda>_. 0) (size_option size)) es + 1)")
     auto

text \<open>
  \<^verbatim>\<open>filepath.Walk(root, fn)\<close>:
  \<^verbatim>\<open>
  info, err := os.Lstat(root)
  if err != nil { err = fn(root, nil, err) } else { err = walk(root, info, fn) }
  if err == SkipDir { return nil }
  return err
  \<close>
\<close>

definition Walk :: "filesystem \<Rightarrow> string \<Rightarrow> 's WalkFunc \<Rightarrow> 's \<Rightarrow> (fserror option \<times> 's) run" where
  "Walk fs root fn st =
     (case (case fs root of
              None \<Rightarrow> fn st root None (Some (LstatError root))
            | Some info \<Rightarrow> walk root info fn st) of
        Exited \<Rightarrow> Exited
      | Returned (err, st1) \<Rightarrow>
          if err = Some SkipDir then Returned (None, st1) else Returned (err, st1))"

text \<open>
  \<^verbatim>\<open>
  func visit(files *[]string) filepath.WalkFunc {
      return func(path string, info os.FileInfo, err error) error {
          if err != nil { log.Fatal(err) }
          *files = append(*files, path)
          return nil
      }
  }
  \<close>
  The state is the slice \<^verbatim>\<open>*files\<close>.
\<close>

definition visit :: "string list WalkFunc" where
  "visit files path info err =
     (if err \<noteq> None then Exited else Returned (None, files @ [path]))"

text \<open>
  \<^verbatim>\<open>
  func GetDirNames(names []string) ([]string, error) {
      var files []string
      for _, v := range names {
          err := filepath.Walk(v, visit(&files))
          if err != nil { return nil, err }
      }
      return files, nil
  }
  \<close>
  The loop is \<open>GetDirNames_range\<close>; the \<^verbatim>\<open>nil\<close> slice is the empty list.
\<close>

fun GetDirNames_range ::
  "filesystem \<Rightarrow> string list \<Rightarrow> string list \<Rightarrow> (string list \<times> fserror option) run" where
  "GetDirNames_range fs [] files = Returned (files, None)"
| "GetDirNames_range fs (v # names) files =
     (case Walk fs v visit files of
        Exited \<Rightarrow> Exited
      | Returned (err, files1) \<Rightarrow>
          if err \<noteq> None then Returned ([], err) else GetDirNames_range fs names files1)"

definition GetDirNames :: "filesystem \<Rightarrow> string list \<Rightarrow> (string list \<times> fserror option) run" where
  "GetDirNames fs names = GetDirNames_range fs names []"

section \<open>Notions used to state the properties\<close>

text \<open>The canonical operations, in the order of the source.\<close>

definition canonical_ops :: "Op list" where
  "canonical_ops = [Create, Write, Remove, Rename, Chmod]"

text \<open>
  The inotify constants of the block that contain none of the five lowest bits. The others
  are \<^verbatim>\<open>IN_ACCESS\<close>, \<^verbatim>\<open>IN_MODIFY\<close>, \<^verbatim>\<open>IN_ATTRIB\<close>, \<^verbatim>\<open>IN_CLOSE_WRITE\<close>,
  \<^verbatim>\<open>IN_CLOSE_NOWRITE\<close> and the unions \<^verbatim>\<open>IN_CLOSE\<close> and \<^verbatim>\<open>IN_ALL_EVENTS\<close>.
\<close>

definition upper_subflags :: "Op list" where
  "upper_subflags =
     [IN_OPEN, IN_MOVED_FROM, IN_MOVED_TO, IN_MOVE, IN_CREATE, IN_DELETE, IN_DELETE_SELF,
      IN_MOVE_SELF, IN_Q_OVERFLOW, IN_IGNORED, IN_ONLYDIR, IN_DONT_FOLLOW, IN_EXCL_UNLINK,
      IN_MASK_CREATE, IN_MASK_ADD, IN_ISDIR, IN_ONESHOT]"

text \<open>The bits of a list of masks together.\<close>

definition union_of :: "Op list \<Rightarrow> Op" where
  "union_of ms = foldr (OR) ms 0"

text \<open>
  The fifteen masks that \<^verbatim>\<open>Op.String\<close> tests, in its order, each with the name it
  writes for it.
\<close>

definition inspected :: "(Op \<times> string) list" where
  "inspected =
     [(IN_ACCESS, ''IN_ACCESS''), (IN_ATTRIB, ''IN_ATTRIB''), (IN_CLOSE, ''IN_CLOSE''),
      (IN_CLOSE_NOWRITE, ''IN_CLOSE_NOWRITE''), (IN_CLOSE_WRITE, ''IN_CLOSE_WRITE''),
      (IN_CREATE, ''IN_CREATE''), (IN_DELETE, ''IN_DELETE''),
      (IN_DELETE_SELF, ''IN_DELETE_SELF''), (IN_MOVED_TO, ''IN_MOVED_TO''),
      (IN_MODIFY, ''IN_MODIFY''), (IN_MOVE_SELF, ''IN_MOVE_SELF''),
      (IN_MOVED_FROM, ''IN_MOVED_FROM''), (IN_ISDIR, ''IN_ISDIR''), (IN_OPEN, ''IN_OPEN''),
      (IN_DONT_FOLLOW, ''IN_DONT_FOLLOW'')]"

text \<open>The names of the inspected masks that an \<^verbatim>\<open>Op\<close> has, in that order.\<close>

definition names_of :: "Op \<Rightarrow> string list" where
  "names_of v = map snd (filter (\<lambda>(m, name). Has v m) inspected)"

text \<open>The names that the commented-out tests of \<^verbatim>\<open>Op.String\<close> would write.\<close>

definition canonical_names :: "string list" where
  "canonical_names = [''CREATE'', ''WRITE'', ''REMOVE'', ''RENAME'', ''CHMOD'']"

text \<open>
  The pieces of a string between occurrences of a separator byte, as
  \<^verbatim>\<open>strings.Split\<close> gives them: a string without the separator is one piece.
\<close>

fun split_on :: "char \<Rightarrow> string \<Rightarrow> string list" where
  "split_on c [] = [[]]"
| "split_on c (x # xs) =
     (if x = c then [] # split_on c xs
      else (case split_on c xs of [] \<Rightarrow> [[x]] | t # ts \<Rightarrow> (x # t) # ts))"

text \<open>
  A node can be walked when every directory in it can be read and every name listed can
  be \<^verbatim>\<open>lstat\<close>ed.
\<close>

fun walkable :: "node \<Rightarrow> bool" where
  "walkable File = True"
| "walkable DirUnreadable = False"
| "walkable (Directory es) =
     list_all (\<lambda>(name, c). case c of None \<Rightarrow> False | Some n \<Rightarrow> walkable n) es"

text \<open>
  The directories of a node at a path, in pre-order: a directory before what it contains,
  and its entries in the order of its listing.
\<close>

fun directories :: "string \<Rightarrow> node \<Rightarrow> string list" where
  "directories path File = []"
| "directories path DirUnreadable = [path]"
| "directories path (Directory es) =
     path # concat (map (\<lambda>(name, c). case c of None \<Rightarrow> []
                                      | Some n \<Rightarrow> directories (Join [path, name]) n) es)"

text \<open>All paths of a node, directories or not, in the same order.\<close>

fun entries :: "string \<Rightarrow> node \<Rightarrow> string list" where
  "entries path File = [path]"
| "entries path DirUnreadable = [path]"
| "entries path (Directory es) =
     path # concat (map (\<lambda>(name, c). case c of None \<Rightarrow> []
                                      | Some n \<Rightarrow> entries (Join [path, name]) n) es)"

text \<open>The same three notions for a root of a file system; a root that is absent has none.\<close>

definition walkable_root :: "filesystem \<Rightarrow> string \<Rightarrow> bool" where
  "walkable_root fs root = (case fs root of None \<Rightarrow> False | Some n \<Rightarrow> walkable n)"

definition directories_under :: "filesystem \<Rightarrow> string \<Rightarrow> string list" where
  "directories_under fs root = (case fs root of None \<Rightarrow> [] | Some n \<Rightarrow> directories root n)"

definition entries_under :: "filesystem \<Rightarrow> string \<Rightarrow> string list" where
  "entries_under fs root = (case fs root of None \<Rightarrow> [] | Some n \<Rightarrow> entries root n)"

text \<open>
  A small file system: the directory \<open>d\<close> holds the directory \<open>a\<close>, which holds the file
  \<open>x\<close>, and the file \<open>f\<close>; the directory \<open>locked\<close> cannot be read; nothing else exists.
\<close>

definition example_fs :: filesystem where
  "example_fs root =
     (if root = ''d''
      then Some (Directory [(''a'', Some (Directory [(''x'', Some File)])), (''f'', Some File)])
      else if root = ''locked'' then Some DirUnreadable
      else None)"

section \<open>Properties of the operation bitmask\<close>

lemma Has_bits: "Has v h \<longleftrightarrow> (\<forall>n. bit h n \<longrightarrow> bit v n)"
proof
  assume "Has v h"
  then have e: "v AND h = h"
    by (simp add: Has_def)
  show "\<forall>n. bit h n \<longrightarrow> bit v n"
  proof (intro allI impI)
    fix n
    assume "bit h n"
    then have "bit (v AND h) n"
      using e by simp
    then show "bit v n"
      by (simp add: bit_and_iff)
  qed
next
  assume a: "\<forall>n. bit h n \<longrightarrow> bit v n"
  show "Has v h"
    unfolding Has_def by (rule bit_eqI) (use a in \<open>auto simp: bit_and_iff\<close>)
qed

lemma Has_OR: "Has v (a OR b) \<longleftrightarrow> Has v a \<and> Has v b"
  unfolding Has_bits by (auto simp: bit_or_iff)

text \<open>
  C6. \<^verbatim>\<open>Has\<close> is containment of bit sets: \<open>Has v h\<close> holds exactly when every bit set in
  \<open>h\<close> is set in \<open>v\<close>; so \<open>v\<close> has \<open>a OR b\<close> exactly when it has \<open>a\<close> and has \<open>b\<close>; and
  \<^verbatim>\<open>Event.Has\<close> is \<^verbatim>\<open>Has\<close> of the event's \<^verbatim>\<open>Op\<close>.
\<close>

theorem Has_is_containment:
  "(Has v h \<longleftrightarrow> (\<forall>n. bit h n \<longrightarrow> bit v n)) \<and>
   (Has v (a OR b) \<longleftrightarrow> Has v a \<and> Has v b) \<and>
   Event_Has e h = Has (Op e) h"
  by (simp add: Has_bits [symmetric] Has_OR Event_Has_def)

theorem Has_is_containment_witness:
  "Has 7 5 \<and> bit (5 :: Op) 0 \<and> bit (7 :: Op) 0 \<and> Has 7 (4 OR 1) \<and> Has 7 4 \<and> Has 7 1 \<and>
   Event_Has \<lparr>Name = ''f'', Op = 7\<rparr> 5"
  using Has_is_containment [of 7 5 4 1 "\<lparr>Name = ''f'', Op = 7\<rparr>"]
  by (simp add: Has_def)

text \<open>
  C8. Every \<^verbatim>\<open>Op\<close> has the zero operation, and so does every event, the one with an empty
  bitmask included.
\<close>

theorem Has_zero: "Has v 0 \<and> Event_Has e 0 \<and> Event_Has \<lparr>Name = n, Op = 0\<rparr> 0"
  by (simp add: Has_def Event_Has_def)

subsection \<open>The layout of the bits\<close>

lemmas Op_defs = Create_def Write_def Remove_def Rename_def Chmod_def
  IN_ACCESS_def IN_ALL_EVENTS_def IN_ATTRIB_def IN_CLOSE_def IN_CLOSE_NOWRITE_def
  IN_CLOSE_WRITE_def IN_CREATE_def IN_DELETE_def IN_DELETE_SELF_def IN_DONT_FOLLOW_def
  IN_EXCL_UNLINK_def IN_IGNORED_def IN_ISDIR_def IN_MASK_ADD_def IN_MASK_CREATE_def
  IN_MODIFY_def IN_MOVE_def IN_MOVED_FROM_def IN_MOVED_TO_def IN_MOVE_SELF_def
  IN_ONESHOT_def IN_ONLYDIR_def IN_OPEN_def IN_Q_OVERFLOW_def

lemma union_of_upper: "union_of upper_subflags = 0xF700CFE0"
  by (simp add: union_of_def upper_subflags_def Op_defs)

lemma union_of_inspected: "union_of (map fst inspected) = 0x42000FFF"
  by (simp add: union_of_def inspected_def Op_defs)

lemma within_mask:
  fixes s m :: Op
  assumes "s AND NOT m = 0" shows "s AND m = s"
proof (rule bit_eqI)
  fix n
  have "\<not> bit (s AND NOT m) n" using assms by simp
  then show "bit (s AND m) n = bit s n"
    by (auto simp: bit_and_iff bit_not_iff dest: bit_imp_le_length)
qed

lemma Has_OR_disjoint:
  assumes "c AND s = 0" shows "Has (v OR s) c = Has v c"
proof -
  have "(v OR s) AND c = (v AND c) OR (s AND c)"
    by (rule word_ao_dist)
  also have "s AND c = 0" using assms by (simp add: word_bw_comms)
  finally show ?thesis by (simp add: Has_def)
qed

lemma disjoint_from_mask:
  fixes c s m :: Op
  assumes "c AND m = 0" and "s AND NOT m = 0" shows "c AND s = 0"
proof -
  have "c AND s = c AND (s AND m)" using within_mask [OF assms(2)] by simp
  also have "\<dots> = (c AND m) AND s" by (simp add: ac_simps)
  finally show ?thesis using assms(1) by simp
qed

lemma upper_within_mask:
  "s \<in> set upper_subflags \<Longrightarrow> s AND NOT (union_of upper_subflags) = 0"
  unfolding union_of_upper by (auto simp: upper_subflags_def Op_defs)

lemma canonical_below_upper: "c \<in> set canonical_ops \<Longrightarrow> c AND union_of upper_subflags = 0"
  by (auto simp: canonical_ops_def union_of_upper Op_defs)

text \<open>
  C2, as the code has it. The five canonical operations are the five lowest bits, which
  are also \<^verbatim>\<open>IN_ACCESS\<close>, \<^verbatim>\<open>IN_MODIFY\<close>, \<^verbatim>\<open>IN_ATTRIB\<close>, \<^verbatim>\<open>IN_CLOSE_WRITE\<close> and
  \<^verbatim>\<open>IN_CLOSE_NOWRITE\<close>. Each of them is disjoint from every inotify constant above these
  bits, so setting only bits of those constants in an \<^verbatim>\<open>Op\<close> never changes whether it has
  a canonical operation; and \<^verbatim>\<open>Has(Create)\<close> and \<^verbatim>\<open>Has(IN_CREATE)\<close> do not depend on each
  other.
\<close>

theorem canonical_ops_layout:
  "canonical_ops = [IN_ACCESS, IN_MODIFY, IN_ATTRIB, IN_CLOSE_WRITE, IN_CLOSE_NOWRITE] \<and>
   (\<forall>c \<in> set canonical_ops. \<forall>s \<in> set upper_subflags. c AND s = 0) \<and>
   (c \<in> set canonical_ops \<longrightarrow> s AND NOT (union_of upper_subflags) = 0 \<longrightarrow>
      Has (v OR s) c = Has v c) \<and>
   Has (v OR IN_CREATE) Create = Has v Create \<and>
   Has (v OR Create) IN_CREATE = Has v IN_CREATE"
proof (intro conjI impI)
  show "canonical_ops = [IN_ACCESS, IN_MODIFY, IN_ATTRIB, IN_CLOSE_WRITE, IN_CLOSE_NOWRITE]"
    by (simp add: canonical_ops_def Op_defs)
  show "\<forall>c \<in> set canonical_ops. \<forall>s \<in> set upper_subflags. c AND s = 0"
    by (blast intro: disjoint_from_mask [OF canonical_below_upper upper_within_mask])
  show "Has (v OR s) c = Has v c"
    if "c \<in> set canonical_ops" and "s AND NOT (union_of upper_subflags) = 0"
    by (rule Has_OR_disjoint, rule disjoint_from_mask [OF canonical_below_upper]) (fact that)+
  show "Has (v OR IN_CREATE) Create = Has v Create"
    by (rule Has_OR_disjoint) (simp add: Op_defs)
  show "Has (v OR Create) IN_CREATE = Has v IN_CREATE"
    by (rule Has_OR_disjoint) (simp add: Op_defs)
qed

theorem canonical_ops_layout_witness:
  "Write \<in> set canonical_ops \<and> (IN_CREATE OR IN_ISDIR) AND NOT (union_of upper_subflags) = 0 \<and>
   Has (IN_MODIFY OR (IN_CREATE OR IN_ISDIR)) Write \<and> Has IN_MODIFY Write \<and>
   IN_ISDIR \<in> set upper_subflags \<and> Write AND IN_ISDIR = 0"
  using canonical_ops_layout [of Write "IN_CREATE OR IN_ISDIR" IN_MODIFY]
  by (simp add: canonical_ops_def upper_subflags_def union_of_def Op_defs Has_def)

text \<open>
  C2, as the claim has it, fails: \<^verbatim>\<open>Create\<close> and \<^verbatim>\<open>IN_ACCESS\<close> are the same bit, so setting
  the subflag \<^verbatim>\<open>IN_ACCESS\<close> alone in the empty \<^verbatim>\<open>Op\<close> makes \<^verbatim>\<open>Has(Create)\<close> true.
\<close>

theorem canonical_ops_overlap_counterexample:
  "\<not> Has 0 Create \<and> Has (0 OR IN_ACCESS) Create \<and> Create AND IN_ACCESS \<noteq> 0"
  by (simp add: Has_def Op_defs)

section \<open>Properties of Op.String\<close>

lemma not_Has_outside:
  fixes v m M :: Op
  assumes "v AND M = 0" and "m AND M = m" and "m \<noteq> 0"
  shows "\<not> Has v m"
proof
  assume "Has v m"
  then have "v AND m = m" by (simp add: Has_def)
  then have "m = (v AND m) AND M" using assms(2) by simp
  also have "\<dots> = (v AND M) AND m" by (simp add: ac_simps)
  finally show False using assms(1,3) by simp
qed

lemma inspected_masks:
  "list_all (\<lambda>m. m AND union_of (map fst inspected) = m \<and> m \<noteq> 0) (map fst inspected)"
  by (simp add: union_of_inspected) (simp add: inspected_def Op_defs)

lemma not_Has_inspected:
  assumes "v AND union_of (map fst inspected) = 0" and "m \<in> set (map fst inspected)"
  shows "\<not> Has v m"
proof (rule not_Has_outside [OF assms(1)])
  show "m AND union_of (map fst inspected) = m" and "m \<noteq> 0"
    using assms(2) inspected_masks by (auto simp: list_all_iff)
qed

lemma Op_String_silent:
  assumes "v AND union_of (map fst inspected) = 0"
  shows "Op_String v = ''[no events]''"
proof -
  have "\<not> Has v IN_ACCESS" "\<not> Has v IN_ATTRIB" "\<not> Has v IN_CLOSE" "\<not> Has v IN_CLOSE_NOWRITE"
    "\<not> Has v IN_CLOSE_WRITE" "\<not> Has v IN_CREATE" "\<not> Has v IN_DELETE" "\<not> Has v IN_DELETE_SELF"
    "\<not> Has v IN_MOVED_TO" "\<not> Has v IN_MODIFY" "\<not> Has v IN_MOVE_SELF" "\<not> Has v IN_MOVED_FROM"
    "\<not> Has v IN_ISDIR" "\<not> Has v IN_OPEN" "\<not> Has v IN_DONT_FOLLOW"
    by (rule not_Has_inspected [OF assms], simp add: inspected_def)+
  then show ?thesis
    by (simp add: Op_String_def)
qed

text \<open>
  C9. An \<^verbatim>\<open>Op\<close> with no bit in common with the inspected masks is printed as
  \<open>[no events]\<close>: so are the empty \<^verbatim>\<open>Op\<close>, \<^verbatim>\<open>IN_Q_OVERFLOW\<close> alone and \<^verbatim>\<open>IN_IGNORED\<close> alone.
\<close>

theorem Op_String_no_events:
  "(v AND union_of (map fst inspected) = 0 \<longrightarrow> Op_String v = ''[no events]'') \<and>
   Op_String 0 = ''[no events]'' \<and>
   Op_String IN_Q_OVERFLOW = ''[no events]'' \<and>
   Op_String IN_IGNORED = ''[no events]''"
proof (intro conjI impI)
  show "Op_String v = ''[no events]''" if "v AND union_of (map fst inspected) = 0"
    using that by (rule Op_String_silent)
  show "Op_String 0 = ''[no events]''"
    by (rule Op_String_silent) simp
  show "Op_String IN_Q_OVERFLOW = ''[no events]''"
    by (rule Op_String_silent) (simp add: union_of_inspected Op_defs)
  show "Op_String IN_IGNORED = ''[no events]''"
    by (rule Op_String_silent) (simp add: union_of_inspected Op_defs)
qed

theorem Op_String_no_events_witness:
  "(IN_Q_OVERFLOW OR IN_IGNORED OR IN_ONESHOT) AND union_of (map fst inspected) = 0 \<and>
   Op_String (IN_Q_OVERFLOW OR IN_IGNORED OR IN_ONESHOT) = ''[no events]''"
  using Op_String_no_events [of "IN_Q_OVERFLOW OR IN_IGNORED OR IN_ONESHOT"]
  by (simp add: union_of_inspected Op_defs)

lemma split_on_element:
  "c \<notin> set n \<Longrightarrow> split_on c (n @ c # rest) = n # split_on c rest"
  by (induction n) auto

lemma split_on_last: "c \<notin> set n \<Longrightarrow> split_on c n = [n]"
  by (induction n) auto

lemma split_on_joined:
  "c \<notin> set n \<Longrightarrow> \<forall>m \<in> set ns. c \<notin> set m \<Longrightarrow>
   split_on c (n @ concat (map ((#) c) ns)) = n # ns"
proof (induction ns arbitrary: n)
  case Nil
  then show ?case by (simp add: split_on_last)
next
  case (Cons m ns)
  have "split_on c (n @ c # (m @ concat (map ((#) c) ns))) = n # split_on c (m @ concat (map ((#) c) ns))"
    using Cons.prems(1) by (rule split_on_element)
  also have "split_on c (m @ concat (map ((#) c) ns)) = m # ns"
    using Cons.prems(2) by (intro Cons.IH) simp_all
  finally show ?case by simp
qed

lemma written_filter:
  "concat (map ((#) c) (map snd (filter (\<lambda>(m, name). P m) xs))) =
   concat (map (\<lambda>(m, name). if P m then c # name else []) xs)"
  by (induction xs) auto

lemma WriteString_if: "(if c then WriteString b str else b) = b @ (if c then str else [])"
  by (simp add: WriteString_def)

lemma Op_String_written:
  "Op_String v =
     (let b = concat (map ((#) CHR ''|'') (names_of v))
      in if length b = 0 then ''[no events]'' else drop 1 b)"
  unfolding Op_String_def names_of_def written_filter WriteString_if inspected_def
  by (simp split del: if_split cong: if_cong)

lemma inspected_names_no_bar: "\<forall>n \<in> set (map snd inspected). CHR ''|'' \<notin> set n"
  by (simp add: inspected_def)

lemma names_of_subset: "set (names_of v) \<subseteq> set (map snd inspected)"
  by (auto simp: names_of_def)

lemma split_Op_String:
  "split_on CHR ''|'' (Op_String v) = (if names_of v = [] then [''[no events]''] else names_of v)"
proof (cases "names_of v")
  case Nil
  then show ?thesis
    by (simp add: Op_String_written)
next
  case (Cons n ns)
  have nobar: "CHR ''|'' \<notin> set n" "\<forall>m \<in> set ns. CHR ''|'' \<notin> set m"
    using names_of_subset [of v] inspected_names_no_bar by (auto simp: Cons)
  have "Op_String v = n @ concat (map ((#) CHR ''|'') ns)"
    by (simp add: Op_String_written Cons)
  then show ?thesis
    using split_on_joined [OF nobar] by (simp add: Cons)
qed

lemma joined_strings_Join: "n @ concat (map ((#) c) ns) = strings_Join (n # ns) [c]"
proof (induction ns arbitrary: n)
  case Nil
  show ?case by simp
next
  case (Cons m ns)
  have "n @ concat (map ((#) c) (m # ns)) = n @ [c] @ (m @ concat (map ((#) c) ns))"
    by simp
  also have "\<dots> = n @ [c] @ strings_Join (m # ns) [c]"
    by (simp only: Cons.IH)
  also have "\<dots> = strings_Join (n # m # ns) [c]"
    by simp
  finally show ?case .
qed

lemma Op_String_joined:
  "Op_String v = (if names_of v = [] then ''[no events]'' else strings_Join (names_of v) ''|'')"
proof (cases "names_of v")
  case Nil
  then show ?thesis
    by (simp add: Op_String_written)
next
  case (Cons n ns)
  have "Op_String v = n @ concat (map ((#) CHR ''|'') ns)"
    by (simp add: Op_String_written Cons)
  then show ?thesis
    by (simp add: joined_strings_Join Cons del: strings_Join.simps)
qed

text \<open>
  C7, as the code has it. The string of an \<^verbatim>\<open>Op\<close> is the placeholder \<open>[no events]\<close> when
  it has none of the inspected masks, and otherwise the names of the inspected masks it
  has, in the order of the tests, joined by \<open>|\<close>. Cut at the \<open>|\<close> it gives these names back;
  they are names of inspected masks, and no piece is one of \<open>CREATE\<close>, \<open>WRITE\<close>,
  \<open>REMOVE\<close>, \<open>RENAME\<close>, \<open>CHMOD\<close>.
\<close>

theorem Op_String_names:
  "Op_String v = (if names_of v = [] then ''[no events]'' else strings_Join (names_of v) ''|'') \<and>
   split_on CHR ''|'' (Op_String v) = (if names_of v = [] then [''[no events]''] else names_of v) \<and>
   set (names_of v) \<subseteq> set (map snd inspected) \<and>
   set (split_on CHR ''|'' (Op_String v)) \<inter> set canonical_names = {}"
proof (intro conjI)
  show "Op_String v = (if names_of v = [] then ''[no events]'' else strings_Join (names_of v) ''|'')"
    by (rule Op_String_joined)
  show "split_on CHR ''|'' (Op_String v) = (if names_of v = [] then [''[no events]''] else names_of v)"
    by (rule split_Op_String)
  show "set (names_of v) \<subseteq> set (map snd inspected)"
    by (rule names_of_subset)
  have "set (map snd inspected) \<inter> set canonical_names = {}"
    by (simp add: inspected_def canonical_names_def)
  moreover have "''[no events]'' \<notin> set canonical_names"
    by (simp add: canonical_names_def)
  ultimately show "set (split_on CHR ''|'' (Op_String v)) \<inter> set canonical_names = {}"
    using names_of_subset [of v] by (auto simp: split_Op_String)
qed

text \<open>
  C7, as the claim has it, fails for the empty \<^verbatim>\<open>Op\<close>: its string is the placeholder
  \<open>[no events]\<close>, which is not the name of a subflag.
\<close>

theorem Op_String_placeholder_counterexample:
  "Op_String 0 = ''[no events]'' \<and>
   split_on CHR ''|'' (Op_String 0) = [''[no events]''] \<and>
   ''[no events]'' \<notin> set (map snd inspected)"
  by (simp add: Op_String_silent inspected_def)

section \<open>Properties of the sentinel errors and of the options\<close>

text \<open>
  C4. Package initialisation creates exactly three error values, \<^verbatim>\<open>ErrNonExistentWatch\<close>,
  \<^verbatim>\<open>ErrEventOverflow\<close> and \<^verbatim>\<open>ErrClosed\<close>; no two of them are equal, whatever was
  allocated before, and they carry the three texts of the source.
\<close>

theorem sentinel_errors_distinct:
  "distinct [ErrNonExistentWatch h0, ErrEventOverflow h0, ErrClosed h0] \<and>
   length (snd (init_errors h0)) = length h0 + 3 \<and>
   map (Error (snd (init_errors h0))) [ErrNonExistentWatch h0, ErrEventOverflow h0, ErrClosed h0] =
     [''fsnotify: can't remove non-existent watcher'', ''fsnotify: queue or buffer overflow'',
      ''fsnotify: watcher already closed'']"
  by (simp add: ErrNonExistentWatch_def ErrEventOverflow_def ErrClosed_def init_errors_def
      errors_New_def Error_def nth_append)

lemma getOptions_range_append:
  "getOptions_range (xs @ ys) w = getOptions_range ys (getOptions_range xs w)"
  by (induction xs arbitrary: w) simp_all

text \<open>
  C5. Without options the buffer size is 65536; a list of options that ends with
  \<^verbatim>\<open>WithBufferSize(n)\<close> gives \<open>n\<close>, whatever the options before it are, so of several
  \<^verbatim>\<open>WithBufferSize\<close> options the last one wins.
\<close>

theorem getOptions_bufsize:
  "bufsize (getOptions []) = 65536 \<and>
   bufsize (getOptions (opts @ [WithBufferSize n])) = n \<and>
   bufsize (getOptions (map WithBufferSize (ns @ [n]))) = n"
  by (simp add: getOptions_def getOptions_range_append WithBufferSize_def defaultOpts_def)

section \<open>Properties of recursivePath\<close>

text \<open>
  A path that ends in \<open>/...\<close> has the last element \<open>...\<close>, and its directory part is what
  stands before the \<open>...\<close>, cleaned: such a path is recursive and loses its \<open>/...\<close>. A path
  whose last element is not \<open>...\<close> is returned as it is.
\<close>

lemma last_separator_step:
  "0 \<le> i \<Longrightarrow> \<not> IsPathSeparator (path ! nat i) \<Longrightarrow>
   last_separator path i = last_separator path (i - 1)"
  by (subst last_separator.simps) simp

lemma last_separator_stop:
  "0 \<le> i \<Longrightarrow> IsPathSeparator (path ! nat i) \<Longrightarrow> last_separator path i = i"
  by (subst last_separator.simps) simp

lemma last_separator_dots:
  "last_separator (d @ ''/...'') (int (length (d @ ''/...'')) - 1) = int (length d)"
proof -
  let ?p = "d @ ''/...''"
  let ?k = "int (length d)"
  have at: "IsPathSeparator (?p ! nat ?k)" "\<not> IsPathSeparator (?p ! nat (?k + 1))"
    "\<not> IsPathSeparator (?p ! nat (?k + 2))" "\<not> IsPathSeparator (?p ! nat (?k + 3))"
    by (simp_all add: nth_append nat_add_distrib IsPathSeparator_def Separator_def)
  have "last_separator ?p (?k + 3) = last_separator ?p (?k + 3 - 1)"
    using at(4) by (intro last_separator_step) simp_all
  also have "?k + 3 - 1 = ?k + 2"
    by simp
  also have "last_separator ?p (?k + 2) = last_separator ?p (?k + 2 - 1)"
    using at(3) by (intro last_separator_step) simp_all
  also have "?k + 2 - 1 = ?k + 1"
    by simp
  also have "last_separator ?p (?k + 1) = last_separator ?p (?k + 1 - 1)"
    using at(2) by (intro last_separator_step) simp_all
  also have "?k + 1 - 1 = ?k"
    by simp
  also have "last_separator ?p ?k = ?k"
    using at(1) by (intro last_separator_stop) simp_all
  finally have "last_separator ?p (?k + 3) = ?k" .
  moreover have "int (length ?p) - 1 = ?k + 3"
    by simp
  ultimately show ?thesis
    by (simp only:)
qed

lemma strip_trailing_dots: "strip_trailing (d @ ''/...'') = d @ ''/...''"
  by (subst strip_trailing.simps) (simp add: IsPathSeparator_def Separator_def nth_append)

lemma Base_dots: "Base (d @ ''/...'') = ''...''"
proof -
  have "last_separator (d @ ''/...'') (int (length (d @ ''/...'')) - 1) = int (length d)"
    by (rule last_separator_dots)
  then show ?thesis
    unfolding Base_def strip_trailing_dots Let_def by (simp add: nat_add_distrib)
qed

lemma Dir_dots: "Dir (d @ ''/...'') = Clean (d @ ''/'')"
proof -
  have "last_separator (d @ ''/...'') (int (length (d @ ''/...'')) - 1) = int (length d)"
    by (rule last_separator_dots)
  then show ?thesis
    unfolding Dir_def Let_def by (simp add: nat_add_distrib)
qed

lemma recursivePath_dots: "recursivePath (d @ ''/...'') = (Clean (d @ ''/''), True)"
  by (simp add: recursivePath_def Base_dots Dir_dots)

lemma recursivePath_other: "Base path \<noteq> ''...'' \<Longrightarrow> recursivePath path = (path, False)"
  by (simp add: recursivePath_def)


text \<open>
  C3. The source's comment promises the path with the \<open>/...\<close> stripped, and for
  \<open>/a/b/...\<close> that is what is returned. With a separator behind the \<open>...\<close> the last
  element is still \<open>...\<close> (\<^verbatim>\<open>Base\<close> removes trailing separators) and the path is reported
  recursive, but \<^verbatim>\<open>Dir\<close> removes the trailing separator only: the \<open>...\<close> stays.
\<close>

theorem recursivePath_trailing_separator:
  "Base ''/a/b/.../'' = ''...'' \<and>
   recursivePath ''/a/b/.../'' = (''/a/b/...'', True) \<and>
   recursivePath ''/a/b/...'' = (''/a/b'', True)"
  by code_simp

section \<open>Properties of GetDirNames\<close>

lemma walk_visit:
  "walk path n visit files =
     (if walkable n then Returned (None, files @ entries path n) else Exited)"
  "walk_names path es visit files =
     (if list_all (\<lambda>(name, c). case c of None \<Rightarrow> False | Some n \<Rightarrow> walkable n) es
      then Returned (None, files @ concat (map (\<lambda>(name, c). case c of None \<Rightarrow> []
                                      | Some n \<Rightarrow> entries (Join [path, name]) n) es))
      else Exited)"
proof (induction path n "visit" files and path es "visit" files rule: walk_walk_names.induct)
  case (1 path st)
  then show ?case by (simp add: visit_def)
next
  case (2 path st)
  then show ?case by (simp add: visit_def)
next
  case (3 path es st)
  then show ?case by (simp add: visit_def)
next
  case (4 path st)
  then show ?case by simp
next
  case (5 path name rest st)
  then show ?case by (simp add: visit_def)
next
  case (6 path name fileInfo rest st)
  then show ?case by (simp add: Let_def)
qed

lemma Walk_visit:
  "Walk fs root visit files =
     (if walkable_root fs root then Returned (None, files @ entries_under fs root) else Exited)"
  by (simp add: Walk_def walkable_root_def entries_under_def walk_visit visit_def
      split: option.split)

lemma GetDirNames_range_visit:
  "GetDirNames_range fs names files =
     (if list_all (walkable_root fs) names
      then Returned (files @ concat (map (entries_under fs) names), None)
      else Exited)"
  by (induction names arbitrary: files) (simp_all add: Walk_visit)

lemma GetDirNames_visit:
  "GetDirNames fs names =
     (if list_all (walkable_root fs) names
      then Returned (concat (map (entries_under fs) names), None)
      else Exited)"
  by (simp add: GetDirNames_def GetDirNames_range_visit)

lemma subseq_concat_map:
  assumes "\<And>x. x \<in> set xs \<Longrightarrow> subseq (f x) (g x)"
  shows "subseq (concat (map f xs)) (concat (map g xs))"
  using assms by (induction xs) (auto intro: list_emb_append_mono)

lemma directories_subseq_entries: "subseq (directories path n) (entries path n)"
proof (induction path n rule: directories.induct)
  case (1 path)
  then show ?case by simp
next
  case (2 path)
  then show ?case by simp
next
  case (3 path es)
  have "subseq (concat (map (\<lambda>(name, c). case c of None \<Rightarrow> []
                              | Some n \<Rightarrow> directories (Join [path, name]) n) es))
               (concat (map (\<lambda>(name, c). case c of None \<Rightarrow> []
                              | Some n \<Rightarrow> entries (Join [path, name]) n) es))"
    by (rule subseq_concat_map) (auto split: option.split intro: 3 simp del: Join.simps)
  then show ?case by (simp del: Join.simps)
qed

lemma directories_under_subseq: "subseq (directories_under fs root) (entries_under fs root)"
  by (simp add: directories_under_def entries_under_def directories_subseq_entries
      split: option.split)

text \<open>
  C1, as the code has it. \<^verbatim>\<open>GetDirNames\<close> never returns an error. When every root can be
  walked it returns a list with no error, and the directories under the roots, root by
  root and in pre-order, are a subsequence of that list. When some root cannot be walked
  (it is absent, or a directory in it cannot be read, or a listed name cannot be
  \<^verbatim>\<open>lstat\<close>ed) the process exits in \<^verbatim>\<open>log.Fatal\<close> and nothing is returned.
\<close>

theorem GetDirNames_outcome:
  "(\<forall>xs e. GetDirNames fs names \<noteq> Returned (xs, Some e)) \<and>
   (list_all (walkable_root fs) names \<longrightarrow>
      (\<exists>xs. GetDirNames fs names = Returned (xs, None) \<and>
            subseq (concat (map (directories_under fs) names)) xs)) \<and>
   (\<not> list_all (walkable_root fs) names \<longrightarrow> GetDirNames fs names = Exited)"
proof (intro conjI allI impI)
  show "GetDirNames fs names \<noteq> Returned (xs, Some e)" for xs e
    by (simp add: GetDirNames_visit)
  show "\<exists>xs. GetDirNames fs names = Returned (xs, None) \<and>
            subseq (concat (map (directories_under fs) names)) xs"
    if "list_all (walkable_root fs) names"
  proof (intro exI conjI)
    show "GetDirNames fs names = Returned (concat (map (entries_under fs) names), None)"
      using that by (simp add: GetDirNames_visit)
    show "subseq (concat (map (directories_under fs) names)) (concat (map (entries_under fs) names))"
      by (rule subseq_concat_map) (rule directories_under_subseq)
  qed
  show "GetDirNames fs names = Exited" if "\<not> list_all (walkable_root fs) names"
    using that by (simp add: GetDirNames_visit)
qed

theorem GetDirNames_outcome_witness:
  "list_all (walkable_root example_fs) [''d''] \<and>
   GetDirNames example_fs [''d''] = Returned ([''d'', ''d/a'', ''d/a/x'', ''d/f''], None) \<and>
   subseq (concat (map (directories_under example_fs) [''d''])) [''d'', ''d/a'', ''d/a/x'', ''d/f''] \<and>
   \<not> list_all (walkable_root example_fs) [''d'', ''locked''] \<and>
   GetDirNames example_fs [''d'', ''locked''] = Exited"
proof -
  have ok: "list_all (walkable_root example_fs) [''d'']"
    by (simp add: walkable_root_def example_fs_def)
  have bad: "\<not> list_all (walkable_root example_fs) [''d'', ''locked'']"
    by (simp add: walkable_root_def example_fs_def)
  have run: "GetDirNames example_fs [''d''] = Returned ([''d'', ''d/a'', ''d/a/x'', ''d/f''], None)"
    by code_simp
  show ?thesis
    using GetDirNames_outcome [of example_fs "[''d'']"]
      GetDirNames_outcome [of example_fs "[''d'', ''locked'']"] ok bad run
    by auto
qed

text \<open>
  C1, as the claim has it, fails twice on the example: for the absent root \<open>nowhere\<close> no
  error is returned, the process exits; and for the root \<open>d\<close> the list holds the files
  \<open>d/a/x\<close> and \<open>d/f\<close> besides the two directories.
\<close>

theorem GetDirNames_counterexample:
  "GetDirNames example_fs [''nowhere''] = Exited \<and>
   GetDirNames example_fs [''d''] = Returned ([''d'', ''d/a'', ''d/a/x'', ''d/f''], None) \<and>
   directories_under example_fs ''d'' = [''d'', ''d/a'']"
  by code_simp

end
